theory Spec2Isabelle
  imports Main "HOL-Library.Word" "HOL-Library.AList"
begin

section \<open>JavaScript strings\<close>

text \<open>
  A JavaScript string is a sequence of UTF-16 code units, and \<open>length\<close>, \<open>substring\<close>
  and \<open>===\<close> all work on code units. A string is therefore a list of 16-bit words;
  \<open>js\<close> embeds an ASCII literal of the source.
\<close>

type_synonym jsstring = "16 word list"

definition js :: "string \<Rightarrow> jsstring" where
  "js s = map of_char s"

text \<open>
  \<open>String.prototype.substring(start, end)\<close>: both arguments are clamped to
  \<open>[0, length]\<close> and swapped when the first exceeds the second.
\<close>

definition substring :: "jsstring \<Rightarrow> int \<Rightarrow> int \<Rightarrow> jsstring" where
  "substring s start fin =
     (let len = int (length s);
          final_start = min (max start 0) len;
          final_end = min (max fin 0) len;
          lo = min final_start final_end;
          hi = max final_start final_end
      in take (nat (hi - lo)) (drop (nat lo) s))"

text \<open>\<open>Array.prototype.join\<close> on an array of strings.\<close>

fun join :: "jsstring \<Rightarrow> jsstring list \<Rightarrow> jsstring" where
  "join sep [] = []"
| "join sep [x] = x"
| "join sep (x # y # ys) = x @ sep @ join sep (y # ys)"

section \<open>The record normalizer: \<open>process_dns_records\<close>\<close>

text \<open>
  \<open>record_data\<close> is the object \<open>{ name, rdata }\<close> built by the normalizer; a
  \<open>RESOURCE\<close> of the DNS provider has these two fields and more, of which the code
  reads \<open>type\<close> and \<open>is_enable\<close>.
\<close>

record record_data =
  name :: jsstring
  rdata :: jsstring

record RESOURCE = record_data +
  type :: jsstring
  is_enable :: jsstring

text \<open>Line 85: \<open>dns_records.filter((record) => record.is_enable === 'yes')\<close>.\<close>

definition enabled_records :: "RESOURCE list \<Rightarrow> RESOURCE list" where
  "enabled_records dns_records =
     filter (\<lambda>record. is_enable record = js ''yes'') dns_records"

text \<open>Line 88: \<open>['CNAME', 'A', 'AAAA'].includes(record.type)\<close>.\<close>

definition specified_type_records :: "RESOURCE list \<Rightarrow> RESOURCE list" where
  "specified_type_records dns_records =
     filter (\<lambda>record. type record \<in> set [js ''CNAME'', js ''A'', js ''AAAA''])
       (enabled_records dns_records)"

text \<open>Line 91: the arrow function of the \<open>map\<close>.\<close>

definition simple_record :: "RESOURCE \<Rightarrow> record_data" where
  "simple_record record =
     \<lparr>name = substring (name record) 0 (int (length (name record)) - 1),
      rdata = rdata record\<rparr>"

definition simple_record_data :: "RESOURCE list \<Rightarrow> record_data list" where
  "simple_record_data dns_records = map simple_record (specified_type_records dns_records)"

text \<open>
  Lines 94 to 102, one iteration. \<open>find\<close> returns the first entry of \<open>records_data\<close>
  with the record's name; the assignment to \<open>existing_record.rdata\<close> changes that
  entry in place, which in a list of values is the first entry with that name.
\<close>

fun replace_first :: "('a \<Rightarrow> bool) \<Rightarrow> 'a \<Rightarrow> 'a list \<Rightarrow> 'a list" where
  "replace_first P y [] = []"
| "replace_first P y (x # xs) = (if P x then y # xs else x # replace_first P y xs)"

definition merge_record :: "record_data list \<Rightarrow> record_data \<Rightarrow> record_data list" where
  "merge_record records_data record =
     (case find (\<lambda>r. name r = name record) records_data of
        Some existing_record \<Rightarrow>
          replace_first (\<lambda>r. name r = name record)
            (existing_record\<lparr>rdata := rdata existing_record @ js '','' @ rdata record\<rparr>)
            records_data
      | None \<Rightarrow> records_data @ [record])"

definition process_dns_records :: "RESOURCE list \<Rightarrow> record_data list" where
  "process_dns_records dns_records =
     foldl merge_record [] (simple_record_data dns_records)"

text \<open>
  The order of first appearance of the distinct elements of a list, and the
  \<open>rdata\<close> values of the records of one name, in input order: the words in which
  the specification describes the merge.
\<close>

fun first_appearances :: "'a list \<Rightarrow> 'a list" where
  "first_appearances [] = []"
| "first_appearances (x # xs) = x # filter (\<lambda>y. y \<noteq> x) (first_appearances xs)"

definition rdata_of :: "jsstring \<Rightarrow> record_data list \<Rightarrow> jsstring list" where
  "rdata_of n records = map rdata (filter (\<lambda>r. name r = n) records)"

definition merged :: "record_data list \<Rightarrow> record_data list" where
  "merged records =
     map (\<lambda>n. \<lparr>name = n, rdata = join (js '','') (rdata_of n records)\<rparr>)
       (first_appearances (map name records))"

section \<open>The normalizer on a heap of objects\<close>

text \<open>
  The source works on references: \<open>filter\<close> and \<open>map\<close> build new arrays, \<open>map\<close>
  builds new \<open>{ name, rdata }\<close> objects, \<open>push\<close> stores a reference to such an
  object in \<open>records_data\<close>, and the assignment to \<open>existing_record.rdata\<close> writes
  through a reference. Here the same function runs on an explicit heap: an address is
  an index into the list of objects, a new object is appended, and an array holds
  addresses. A read of an address that holds no object of the expected kind gives
  \<open>None\<close>.
\<close>

datatype obj = Resource RESOURCE | Record_data record_data | Array "nat list"

type_synonym addr = nat
type_synonym heap = "obj list"

definition alloc :: "heap \<Rightarrow> obj \<Rightarrow> addr \<times> heap" where
  "alloc h v = (length h, h @ [v])"

definition get_resource :: "heap \<Rightarrow> addr \<Rightarrow> RESOURCE option" where
  "get_resource h a =
     (if a < length h then (case h ! a of Resource r \<Rightarrow> Some r | _ \<Rightarrow> None) else None)"

definition get_record_data :: "heap \<Rightarrow> addr \<Rightarrow> record_data option" where
  "get_record_data h a =
     (if a < length h then (case h ! a of Record_data r \<Rightarrow> Some r | _ \<Rightarrow> None) else None)"

definition get_array :: "heap \<Rightarrow> addr \<Rightarrow> addr list option" where
  "get_array h a =
     (if a < length h then (case h ! a of Array elems \<Rightarrow> Some elems | _ \<Rightarrow> None) else None)"

fun filter_h :: "(RESOURCE \<Rightarrow> bool) \<Rightarrow> heap \<Rightarrow> addr list \<Rightarrow> addr list option" where
  "filter_h P h [] = Some []"
| "filter_h P h (a # as) =
     (case get_resource h a of
        None \<Rightarrow> None
      | Some record \<Rightarrow>
          (case filter_h P h as of
             None \<Rightarrow> None
           | Some kept \<Rightarrow> Some (if P record then a # kept else kept)))"

definition array_filter :: "(RESOURCE \<Rightarrow> bool) \<Rightarrow> heap \<Rightarrow> addr \<Rightarrow> (addr \<times> heap) option" where
  "array_filter P h arr =
     (case get_array h arr of
        None \<Rightarrow> None
      | Some elems \<Rightarrow>
          (case filter_h P h elems of
             None \<Rightarrow> None
           | Some kept \<Rightarrow> Some (alloc h (Array kept))))"

fun map_h :: "heap \<Rightarrow> addr list \<Rightarrow> (addr list \<times> heap) option" where
  "map_h h [] = Some ([], h)"
| "map_h h (a # as) =
     (case get_resource h a of
        None \<Rightarrow> None
      | Some record \<Rightarrow>
          (case alloc h (Record_data (simple_record record)) of
             (b, h1) \<Rightarrow>
               (case map_h h1 as of
                  None \<Rightarrow> None
                | Some (bs, h2) \<Rightarrow> Some (b # bs, h2))))"

definition array_map :: "heap \<Rightarrow> addr \<Rightarrow> (addr \<times> heap) option" where
  "array_map h arr =
     (case get_array h arr of
        None \<Rightarrow> None
      | Some elems \<Rightarrow>
          (case map_h h elems of
             None \<Rightarrow> None
           | Some (bs, h1) \<Rightarrow> Some (alloc h1 (Array bs))))"

text \<open>
  \<open>records_data.find((r) => r.name === record.name)\<close>: \<open>Some None\<close> is
  \<open>undefined\<close>, \<open>Some (Some a)\<close> the reference found.
\<close>

fun find_h :: "heap \<Rightarrow> jsstring \<Rightarrow> addr list \<Rightarrow> addr option option" where
  "find_h h n [] = Some None"
| "find_h h n (a # as) =
     (case get_record_data h a of
        None \<Rightarrow> None
      | Some r \<Rightarrow> if name r = n then Some (Some a) else find_h h n as)"

fun merge_h :: "heap \<Rightarrow> addr \<Rightarrow> addr list \<Rightarrow> heap option" where
  "merge_h h records_data [] = Some h"
| "merge_h h records_data (a # as) =
     (case get_record_data h a of
        None \<Rightarrow> None
      | Some record \<Rightarrow>
          (case get_array h records_data of
             None \<Rightarrow> None
           | Some elems \<Rightarrow>
               (case find_h h (name record) elems of
                  None \<Rightarrow> None
                | Some (Some e) \<Rightarrow>
                    (case get_record_data h e of
                       None \<Rightarrow> None
                     | Some existing_record \<Rightarrow>
                         merge_h
                           (h[e := Record_data (existing_record
                                \<lparr>rdata := rdata existing_record @ js '','' @ rdata record\<rparr>)])
                           records_data as)
                | Some None \<Rightarrow>
                    merge_h (h[records_data := Array (elems @ [a])]) records_data as)))"

definition process_dns_records_h :: "heap \<Rightarrow> addr \<Rightarrow> (addr \<times> heap) option" where
  "process_dns_records_h h dns_records =
     (case array_filter (\<lambda>record. is_enable record = js ''yes'') h dns_records of
        None \<Rightarrow> None
      | Some (enabled, h1) \<Rightarrow>
     (case array_filter (\<lambda>record. type record \<in> set [js ''CNAME'', js ''A'', js ''AAAA''])
             h1 enabled of
        None \<Rightarrow> None
      | Some (specified, h2) \<Rightarrow>
     (case array_map h2 specified of
        None \<Rightarrow> None
      | Some (simple, h3) \<Rightarrow>
     (case alloc h3 (Array []) of
        (records_data, h4) \<Rightarrow>
     (case get_array h4 simple of
        None \<Rightarrow> None
      | Some elems \<Rightarrow>
     (case merge_h h4 records_data elems of
        None \<Rightarrow> None
      | Some h5 \<Rightarrow> Some (records_data, h5)))))))"

text \<open>Reading an array of objects back from the heap, as a list of values.\<close>

fun those_h :: "(heap \<Rightarrow> addr \<Rightarrow> 'a option) \<Rightarrow> heap \<Rightarrow> addr list \<Rightarrow> 'a list option" where
  "those_h get h [] = Some []"
| "those_h get h (a # as) =
     (case get h a of
        None \<Rightarrow> None
      | Some v \<Rightarrow> (case those_h get h as of None \<Rightarrow> None | Some vs \<Rightarrow> Some (v # vs)))"

definition read_resources :: "heap \<Rightarrow> addr \<Rightarrow> RESOURCE list option" where
  "read_resources h arr =
     (case get_array h arr of None \<Rightarrow> None | Some elems \<Rightarrow> those_h get_resource h elems)"

definition read_records :: "heap \<Rightarrow> addr \<Rightarrow> record_data list option" where
  "read_records h arr =
     (case get_array h arr of None \<Rightarrow> None | Some elems \<Rightarrow> those_h get_record_data h elems)"

section \<open>JavaScript objects used as dictionaries\<close>

text \<open>
  An object built by \<open>Object.fromEntries\<close> is a list of its own properties in
  creation order: assigning to a key that exists keeps its place. Its prototype is
  \<open>Object.prototype\<close>, so the \<open>in\<close> operator and a property read also find the
  properties inherited from there; \<open>Object.keys\<close> lists own properties only, the
  array indices first in ascending order, then the other keys in creation order.
\<close>

definition from_entries :: "(jsstring \<times> 'v) list \<Rightarrow> (jsstring \<times> 'v) list" where
  "from_entries entries = foldl (\<lambda>obj (k, v). AList.update k v obj) [] entries"

definition object_prototype_keys :: "jsstring list" where
  "object_prototype_keys =
     map js [''constructor'', ''__defineGetter__'', ''__defineSetter__'', ''hasOwnProperty'',
             ''__lookupGetter__'', ''__lookupSetter__'', ''isPrototypeOf'',
             ''propertyIsEnumerable'', ''toString'', ''valueOf'', ''__proto__'',
             ''toLocaleString'']"

text \<open>\<open>key in obj\<close>.\<close>

definition has_property :: "(jsstring \<times> 'v) list \<Rightarrow> jsstring \<Rightarrow> bool" where
  "has_property obj key = (key \<in> set (map fst obj) \<or> key \<in> set object_prototype_keys)"

text \<open>
  \<open>obj[key]\<close>: the own value, else the member of \<open>Object.prototype\<close> of that name,
  else \<open>undefined\<close>.
\<close>

datatype 'v js_value = Own 'v | Proto_member jsstring | Undefined

definition get_property :: "(jsstring \<times> 'v) list \<Rightarrow> jsstring \<Rightarrow> 'v js_value" where
  "get_property obj key =
     (case map_of obj key of
        Some v \<Rightarrow> Own v
      | None \<Rightarrow> if key \<in> set object_prototype_keys then Proto_member key else Undefined)"

definition is_digit :: "16 word \<Rightarrow> bool" where
  "is_digit c = (48 \<le> c \<and> c \<le> 57)"

definition decimal_value :: "jsstring \<Rightarrow> nat" where
  "decimal_value s = foldl (\<lambda>n c. 10 * n + (unat c - 48)) 0 s"

text \<open>An array index is the canonical decimal form of an integer below \<open>2^32 - 1\<close>.\<close>

definition is_array_index :: "jsstring \<Rightarrow> bool" where
  "is_array_index s =
     (s \<noteq> [] \<and> list_all is_digit s \<and> (length s = 1 \<or> hd s \<noteq> 48)
      \<and> decimal_value s < 2 ^ 32 - 1)"

text \<open>\<open>Object.keys(obj)\<close>.\<close>

definition own_keys :: "(jsstring \<times> 'v) list \<Rightarrow> jsstring list" where
  "own_keys obj =
     sort_key decimal_value (filter is_array_index (map fst obj))
     @ filter (\<lambda>k. \<not> is_array_index k) (map fst obj)"

section \<open>The sheet reconciler: \<open>process_wedocs\<close>\<close>

text \<open>
  A cell fragment \<open>{ type: 'text', text }\<close> (its fields are \<open>cell_type\<close> and
  \<open>cell_text\<close> here, \<open>type\<close> being a field of \<open>RESOURCE\<close> and \<open>text\<close> a
  keyword), and a sheet record \<open>{ record_id, values }\<close>
  whose \<open>values\<close> object (\<open>row_values\<close>) maps a field name to its fragments. The \<open>record_id\<close> of a
  fetched row is a string; that of a row sent for update is whatever the property read
  \<open>record_name_id_mappings[name]\<close> gives.
\<close>

record cell =
  cell_type :: jsstring
  cell_text :: jsstring

record 'id sheet_record =
  record_id :: 'id
  row_values :: "(jsstring \<times> cell list) list"

record wecom_option =
  corpId :: "jsstring option"
  secret :: "jsstring option"

datatype js_error = TypeError | Error jsstring | Api_failure

text \<open>
  The calls to the two remote services, with their arguments: \<open>shared_rrs_get\<close> after
  \<open>init\<close> with the credentials, and the four calls of \<open>SmartSheet.Record\<close>
  with \<open>docid\<close>, \<open>sheet_id\<close>, the payload and \<open>option\<close>.
\<close>

datatype net_call =
    Shared_rrs_get "jsstring option" "jsstring option" "jsstring option"
  | Record_records "jsstring option" "jsstring option" wecom_option
  | Record_add "jsstring option" "jsstring option" "jsstring sheet_record list" wecom_option
  | Record_update "jsstring option" "jsstring option" "jsstring js_value sheet_record list"
      wecom_option
  | Record_del "jsstring option" "jsstring option" "jsstring js_value list" wecom_option

text \<open>
  What the remote services answer in one run: the resources of the DNS provider, the
  rows of the sheet, \<open>res.records.length\<close> of the answer to \<open>add\<close>,
  \<open>res.length\<close> of the answer to \<open>update\<close>, and the number of rows the service
  reports as deleted, which the code does not read; \<open>Inl\<close> is a call that throws.
\<close>

record world =
  zdns_resources :: "js_error + RESOURCE list"
  sheet_rows :: "js_error + jsstring sheet_record list"
  add_result :: "js_error + nat"
  update_result :: "js_error + nat"
  del_result :: "js_error + nat"

record statistics =
  added :: nat
  updated :: nat
  deleted :: nat

type_synonym env = "string \<Rightarrow> jsstring option"

text \<open>A destructuring default applies when the variable is \<open>undefined\<close>.\<close>

definition with_default :: "jsstring option \<Rightarrow> jsstring \<Rightarrow> jsstring" where
  "with_default v d = (case v of None \<Rightarrow> d | Some s \<Rightarrow> s)"

definition default_FIELD_DNS_NAME :: jsstring where
  "default_FIELD_DNS_NAME = [0x4FE1, 0x606F, 0x7CFB, 0x7EDF, 0x57DF, 0x540D]"

definition default_FIELD_DNS_RDATA :: jsstring where
  "default_FIELD_DNS_RDATA = [0x57DF, 0x540D, 0x89E3, 0x6790, 0x8BB0, 0x5F55]"

text \<open>
  Line 122: \<open>[record.values[FIELD_DNS_NAME][0].text, record.record_id]\<close>. A field
  that is missing or has no fragment makes the read of \<open>[0]\<close> or of \<open>.text\<close>
  throw a TypeError.
\<close>

definition row_entry :: "jsstring \<Rightarrow> jsstring sheet_record \<Rightarrow> js_error + (jsstring \<times> jsstring)" where
  "row_entry FIELD_DNS_NAME record =
     (case map_of (row_values record) FIELD_DNS_NAME of
        Some (c # _) \<Rightarrow> Inr (cell_text c, record_id record)
      | _ \<Rightarrow> Inl TypeError)"

fun map_result :: "('a \<Rightarrow> 'e + 'b) \<Rightarrow> 'a list \<Rightarrow> 'e + 'b list" where
  "map_result f [] = Inr []"
| "map_result f (x # xs) =
     (case f x of
        Inl e \<Rightarrow> Inl e
      | Inr y \<Rightarrow> (case map_result f xs of Inl e \<Rightarrow> Inl e | Inr ys \<Rightarrow> Inr (y # ys)))"

text \<open>The \<open>values\<close> object of a row sent to the sheet, lines 133 to 136.\<close>

definition text_values ::
  "jsstring \<Rightarrow> jsstring \<Rightarrow> record_data \<Rightarrow> (jsstring \<times> cell list) list" where
  "text_values FIELD_DNS_NAME FIELD_DNS_RDATA r =
     from_entries
       [(FIELD_DNS_NAME, [\<lparr>cell_type = js ''text'', cell_text = name r\<rparr>]),
        (FIELD_DNS_RDATA, [\<lparr>cell_type = js ''text'', cell_text = rdata r\<rparr>])]"

text \<open>Lines 129, 145 and 160 to 161.\<close>

definition records_to_insert ::
  "(jsstring \<times> jsstring) list \<Rightarrow> record_data list \<Rightarrow> record_data list" where
  "records_to_insert record_name_id_mappings dns_records_data =
     filter (\<lambda>r. \<not> has_property record_name_id_mappings (name r)) dns_records_data"

definition records_to_update ::
  "(jsstring \<times> jsstring) list \<Rightarrow> record_data list \<Rightarrow> record_data list" where
  "records_to_update record_name_id_mappings dns_records_data =
     filter (\<lambda>r. has_property record_name_id_mappings (name r)) dns_records_data"

definition records_to_delete ::
  "(jsstring \<times> jsstring) list \<Rightarrow> record_data list \<Rightarrow> jsstring list" where
  "records_to_delete record_name_id_mappings dns_records_data =
     (let dns_record_names = map name dns_records_data
      in filter (\<lambda>n. n \<notin> set dns_record_names) (own_keys record_name_id_mappings))"

text \<open>
  \<open>process_wedocs\<close> returns the calls it made, in order, and either the error that
  ended it or the statistics. The log calls and the unused
  \<open>record_id_name_mappings\<close> are left out.
\<close>

definition process_wedocs ::
  "env \<Rightarrow> world \<Rightarrow> record_data list \<Rightarrow> net_call list \<times> (js_error + statistics)" where
  "process_wedocs env w dns_records_data =
     (let FIELD_DNS_NAME = with_default (env ''FIELD_DNS_NAME'') default_FIELD_DNS_NAME;
          FIELD_DNS_RDATA = with_default (env ''FIELD_DNS_RDATA'') default_FIELD_DNS_RDATA;
          REMOVE_IRRELEVANT_RECORDS =
            with_default (env ''REMOVE_IRRELEVANT_RECORDS'') (js ''false'');
          remove_irrelevant_records = (REMOVE_IRRELEVANT_RECORDS = js ''true'' \<or> True);
          DOC_ID = env ''DOC_ID'';
          SHEET_ID = env ''SHEET_ID'';
          option = \<lparr>corpId = env ''CORP_ID'', secret = env ''SECRET''\<rparr>;
          call_records = Record_records DOC_ID SHEET_ID option
      in
      case sheet_rows w of
        Inl e \<Rightarrow> ([call_records], Inl e)
      | Inr res \<Rightarrow>
      (case map_result (row_entry FIELD_DNS_NAME) res of
        Inl e \<Rightarrow> ([call_records], Inl e)
      | Inr entries \<Rightarrow>
      (let record_name_id_mappings = from_entries entries;
           call_add = Record_add DOC_ID SHEET_ID
             (map (\<lambda>r. \<lparr>record_id = name r,
                        row_values = text_values FIELD_DNS_NAME FIELD_DNS_RDATA r\<rparr>)
                (records_to_insert record_name_id_mappings dns_records_data))
             option
       in
       case add_result w of
         Inl e \<Rightarrow> ([call_records, call_add], Inl e)
       | Inr n_added \<Rightarrow>
       (let call_update = Record_update DOC_ID SHEET_ID
              (map (\<lambda>r. \<lparr>record_id = get_property record_name_id_mappings (name r),
                         row_values = text_values FIELD_DNS_NAME FIELD_DNS_RDATA r\<rparr>)
                 (records_to_update record_name_id_mappings dns_records_data))
              option
        in
        case update_result w of
          Inl e \<Rightarrow> ([call_records, call_add, call_update], Inl e)
        | Inr n_updated \<Rightarrow>
        if remove_irrelevant_records then
          (let to_delete = records_to_delete record_name_id_mappings dns_records_data;
               call_del = Record_del DOC_ID SHEET_ID
                 (map (get_property record_name_id_mappings) to_delete) option
           in
           case del_result w of
             Inl e \<Rightarrow> ([call_records, call_add, call_update, call_del], Inl e)
           | Inr _ \<Rightarrow>
               ([call_records, call_add, call_update, call_del],
                Inr \<lparr>added = n_added, updated = n_updated, deleted = length to_delete\<rparr>))
        else
          ([call_records, call_add, call_update],
           Inr \<lparr>added = n_added, updated = n_updated, deleted = 0\<rparr>)))))"

section \<open>Configuration check and entry point\<close>

text \<open>\<open>!X\<close> for a variable of the environment: \<open>undefined\<close> or the empty string.\<close>

definition falsy :: "jsstring option \<Rightarrow> bool" where
  "falsy v = (v = None \<or> v = Some [])"

text \<open>The condition of line 11.\<close>

definition config_missing :: "env \<Rightarrow> bool" where
  "config_missing env =
     (falsy (env ''APPWRITE_ENDPOINT'') \<or> falsy (env ''APPWRITE_FUNCTION_PROJECT_ID'')
      \<or> falsy (env ''APPWRITE_DATABASE_ID'') \<or> falsy (env ''APPWRITE_COLLECTION_ID'')
      \<or> falsy (env ''ZDNS_API_HOST'') \<or> falsy (env ''ZDNS_API_USERNAME'')
      \<or> falsy (env ''ZDNS_API_PASSWORD'') \<or> falsy (env ''CORP_ID'')
      \<or> falsy (env ''SECRET'') \<or> falsy (env ''DOC_ID'') \<or> falsy (env ''SHEET_ID''))"

definition mandatory_parameters :: "string list" where
  "mandatory_parameters =
     [''APPWRITE_ENDPOINT'', ''APPWRITE_FUNCTION_PROJECT_ID'', ''APPWRITE_DATABASE_ID'',
      ''APPWRITE_COLLECTION_ID'', ''ZDNS_API_HOST'', ''ZDNS_API_USERNAME'',
      ''ZDNS_API_PASSWORD'', ''CORP_ID'', ''SECRET'', ''DOC_ID'', ''SHEET_ID'']"

datatype outcome = Exited int | Thrown js_error | Returned_empty

text \<open>Lines 31 to 43; building the client makes no call.\<close>

definition init_appwrite_client :: "env \<Rightarrow> js_error + unit" where
  "init_appwrite_client env =
     (if env ''NODE_ENV'' = Some (js ''development'') then
        (if falsy (env ''APPWRITE_API_KEY'')
         then Inl (Error (js ''APPWRITE_API_KEY is required in development mode''))
         else Inr ())
      else Inr ())"

text \<open>The exported function, lines 170 to 190.\<close>

definition entrypoint :: "env \<Rightarrow> world \<Rightarrow> net_call list \<times> outcome" where
  "entrypoint env w =
     (case init_appwrite_client env of
        Inl e \<Rightarrow> ([], Thrown e)
      | Inr client \<Rightarrow>
      (let call_get = Shared_rrs_get (env ''ZDNS_API_HOST'') (env ''ZDNS_API_USERNAME'')
             (env ''ZDNS_API_PASSWORD'')
       in
       case zdns_resources w of
         Inl e \<Rightarrow> ([call_get], Thrown e)
       | Inr dns_records \<Rightarrow>
           (case process_wedocs env w (process_dns_records dns_records) of
              (calls, Inl e) \<Rightarrow> (call_get # calls, Thrown e)
            | (calls, Inr statistics) \<Rightarrow> (call_get # calls, Returned_empty))))"

text \<open>
  One run: the module is loaded, which runs the check of lines 11 to 14, and if the
  process is still there the exported function is called once.
\<close>

definition program :: "env \<Rightarrow> world \<Rightarrow> net_call list \<times> outcome" where
  "program env w = (if config_missing env then ([], Exited (- 1)) else entrypoint env w)"

section \<open>Properties of the normalizer\<close>

lemma substring_butlast: "substring s 0 (int (length s) - 1) = butlast s"
  by (cases s rule: rev_cases) (auto simp: substring_def Let_def butlast_conv_take min_def max_def)

lemma name_simple_record: "name (simple_record r) = butlast (name r)"
  by (simp add: simple_record_def substring_butlast)

lemma rdata_simple_record: "rdata (simple_record r) = rdata r"
  by (simp add: simple_record_def)

lemma simple_record_eq: "simple_record r = \<lparr>name = butlast (name r), rdata = rdata r\<rparr>"
  by (simp add: simple_record_def substring_butlast)

lemma first_appearances_set: "set (first_appearances xs) = set xs"
  by (induction xs) auto

lemma first_appearances_distinct: "distinct (first_appearances xs)"
  by (induction xs) (auto simp: first_appearances_set)

lemma first_appearances_snoc:
  "first_appearances (xs @ [x]) =
     (if x \<in> set xs then first_appearances xs else first_appearances xs @ [x])"
  by (induction xs) auto

lemma first_appearances_remdups: "first_appearances xs = rev (remdups (rev xs))"
  by (induction xs rule: rev_induct) (auto simp: first_appearances_snoc)

lemma join_snoc: "join sep (vs @ [v]) = (if vs = [] then v else join sep vs @ sep @ v)"
  by (induction sep vs rule: join.induct) auto

lemma rdata_of_snoc:
  "rdata_of n (xs @ [x]) = rdata_of n xs @ (if name x = n then [rdata x] else [])"
  by (simp add: rdata_of_def)

lemma rdata_of_empty_iff: "rdata_of n xs = [] \<longleftrightarrow> n \<notin> name ` set xs"
  by (auto simp: rdata_of_def filter_empty_conv)

lemma find_map_name:
  assumes "\<And>n. name (f n) = n"
  shows "find (\<lambda>r. name r = m) (map f ns) = (if m \<in> set ns then Some (f m) else None)"
  using assms by (induction ns) auto

lemma replace_first_map_name:
  assumes "\<And>n. name (f n) = n" and "distinct ns"
  shows "replace_first (\<lambda>r. name r = m) y (map f ns) = map (\<lambda>n. if n = m then y else f n) ns"
  using assms by (induction ns) auto

lemma merged_snoc: "merged (xs @ [x]) = merge_record (merged xs) (x::record_data)"
proof (cases "name x \<in> name ` set xs")
  case False
  then have "\<And>n. n \<in> set (first_appearances (map name xs)) \<Longrightarrow> name x \<noteq> n"
    by (auto simp: first_appearances_set)
  with False show ?thesis
    by (auto simp: merged_def merge_record_def first_appearances_snoc find_map_name
        first_appearances_set rdata_of_snoc rdata_of_empty_iff[THEN iffD2])
next
  case True
  then have ne: "rdata_of (name x) xs \<noteq> []" by (simp add: rdata_of_empty_iff)
  from True show ?thesis
    by (auto simp: merged_def merge_record_def first_appearances_snoc find_map_name
        first_appearances_set rdata_of_snoc replace_first_map_name first_appearances_distinct
        join_snoc ne)
qed

lemma foldl_merge_record: "foldl merge_record [] xs = merged xs"
proof (induction xs rule: rev_induct)
  case Nil show ?case by (simp add: merged_def)
next
  case (snoc x xs) then show ?case by (simp add: merged_snoc)
qed

lemma process_dns_records_merged:
  "process_dns_records dns_records = merged (simple_record_data dns_records)"
  by (simp add: process_dns_records_def foldl_merge_record)

lemma map_name_merged: "map name (merged xs) = first_appearances (map name xs)"
  by (simp add: merged_def comp_def)

text \<open>
  C1: for every input list, no two records of the output of \<open>process_dns_records\<close>
  have the same name, and the names of the output are the distinct names of the filtered
  and mapped input in the order of their first appearance.
\<close>

theorem normalizer_names_unique_first_seen:
  "distinct (map name (process_dns_records dns_records))
   \<and> map name (process_dns_records dns_records)
       = first_appearances (map name (simple_record_data dns_records))"
  by (simp add: process_dns_records_merged map_name_merged first_appearances_distinct)

text \<open>
  C2: the \<open>rdata\<close> of each output record is the \<open>rdata\<close> values of all filtered
  records of that name, in input order, joined by commas, repeated values included; two
  records of one name with \<open>1.2.3.4\<close> then \<open>5.6.7.8\<close> give \<open>1.2.3.4,5.6.7.8\<close>,
  and twice \<open>1.2.3.4\<close> gives \<open>1.2.3.4,1.2.3.4\<close>.
\<close>

theorem merged_rdata_comma_joined:
  "map rdata (process_dns_records dns_records)
     = map (\<lambda>n. join (js '','') (rdata_of n (simple_record_data dns_records)))
         (map name (process_dns_records dns_records))
   \<and> process_dns_records
         [\<lparr>name = n, rdata = js ''1.2.3.4'', type = js ''A'', is_enable = js ''yes''\<rparr>,
          \<lparr>name = n, rdata = js ''5.6.7.8'', type = js ''A'', is_enable = js ''yes''\<rparr>]
       = [\<lparr>name = butlast n, rdata = js ''1.2.3.4,5.6.7.8''\<rparr>]
   \<and> process_dns_records
         [\<lparr>name = n, rdata = js ''1.2.3.4'', type = js ''A'', is_enable = js ''yes''\<rparr>,
          \<lparr>name = n, rdata = js ''1.2.3.4'', type = js ''A'', is_enable = js ''yes''\<rparr>]
       = [\<lparr>name = butlast n, rdata = js ''1.2.3.4,1.2.3.4''\<rparr>]"
proof (intro conjI)
  show "map rdata (process_dns_records dns_records)
     = map (\<lambda>n. join (js '','') (rdata_of n (simple_record_data dns_records)))
         (map name (process_dns_records dns_records))"
    by (simp add: process_dns_records_merged map_name_merged) (simp add: merged_def comp_def)
next
  show "process_dns_records
         [\<lparr>name = n, rdata = js ''1.2.3.4'', type = js ''A'', is_enable = js ''yes''\<rparr>,
          \<lparr>name = n, rdata = js ''5.6.7.8'', type = js ''A'', is_enable = js ''yes''\<rparr>]
       = [\<lparr>name = butlast n, rdata = js ''1.2.3.4,5.6.7.8''\<rparr>]"
    by (simp add: process_dns_records_def simple_record_data_def specified_type_records_def
        enabled_records_def simple_record_eq merge_record_def js_def)
next
  show "process_dns_records
         [\<lparr>name = n, rdata = js ''1.2.3.4'', type = js ''A'', is_enable = js ''yes''\<rparr>,
          \<lparr>name = n, rdata = js ''1.2.3.4'', type = js ''A'', is_enable = js ''yes''\<rparr>]
       = [\<lparr>name = butlast n, rdata = js ''1.2.3.4,1.2.3.4''\<rparr>]"
    by (simp add: process_dns_records_def simple_record_data_def specified_type_records_def
        enabled_records_def simple_record_eq merge_record_def js_def)
qed

text \<open>
  The part of C4 that holds: a name that ends with a dot loses exactly that one dot, so
  \<open>a.com.\<close> becomes \<open>a.com\<close> and \<open>a.com..\<close> becomes \<open>a.com.\<close>; the empty name
  stays empty.
\<close>

lemma trailing_dot_stripped_once:
  "(name record = n @ js ''.'' \<longrightarrow> name (simple_record record) = n)
   \<and> (name record = [] \<longrightarrow> name (simple_record record) = [])"
  by (simp add: name_simple_record js_def)

lemma trailing_dot_stripped_once_example:
  "name (simple_record
        \<lparr>name = js ''a.com..'', rdata = js ''1.1.1.1'', type = js ''A'', is_enable = js ''yes''\<rparr>)
     = js ''a.com.''
   \<and> map name (simple_record_data
        [\<lparr>name = js ''a.com.'', rdata = js ''1.1.1.1'', type = js ''A'', is_enable = js ''yes''\<rparr>])
     = [js ''a.com'']"
  by (simp add: simple_record_data_def specified_type_records_def enabled_records_def
      name_simple_record js_def)

text \<open>
  C4 says that name normalization strips exactly one trailing dot and returns a name
  that has no trailing dot unchanged. The comment of line 90 states the same intent
  (\<open>map only name without suffix dot\<close>), but line 91 takes
  \<open>substring(0, length - 1)\<close> without looking at the last character: the enabled
  \<open>A\<close> record named \<open>a.com\<close>, which has no trailing dot, survives both filters and
  comes out named \<open>a.co\<close>.
\<close>

theorem name_without_dot_loses_last_character:
  "specified_type_records
       [\<lparr>name = js ''a.com'', rdata = js ''1.1.1.1'', type = js ''A'', is_enable = js ''yes''\<rparr>]
     = [\<lparr>name = js ''a.com'', rdata = js ''1.1.1.1'', type = js ''A'', is_enable = js ''yes''\<rparr>]
   \<and> last (js ''a.com'') \<noteq> of_char CHR ''.''
   \<and> process_dns_records
       [\<lparr>name = js ''a.com'', rdata = js ''1.1.1.1'', type = js ''A'', is_enable = js ''yes''\<rparr>]
     = [\<lparr>name = js ''a.co'', rdata = js ''1.1.1.1''\<rparr>]
   \<and> js ''a.co'' \<noteq> js ''a.com''"
  by (simp add: process_dns_records_def simple_record_data_def specified_type_records_def
        enabled_records_def simple_record_eq merge_record_def js_def)

text \<open>
  C7: a record is kept by the first filter exactly when its \<open>is_enable\<close> is the string
  \<open>yes\<close>; the filter does not look at the type, a record that is not enabled
  contributes nothing to the output, and \<open>Yes\<close> is not \<open>yes\<close>.
\<close>

theorem disabled_records_excluded:
  "(r \<in> set (enabled_records dns_records)
      \<longleftrightarrow> r \<in> set dns_records \<and> is_enable r = js ''yes'')
   \<and> enabled_records (map (type_update f) dns_records)
       = map (type_update f) (enabled_records dns_records)
   \<and> (is_enable r \<noteq> js ''yes'' \<longrightarrow>
        process_dns_records (xs @ r # ys) = process_dns_records (xs @ ys))
   \<and> enabled_records [r\<lparr>is_enable := js ''Yes''\<rparr>] = []"
  by (auto simp: enabled_records_def process_dns_records_def simple_record_data_def
      specified_type_records_def filter_map comp_def js_def)

text \<open>A disabled record \<open>b.com.\<close> next to an enabled \<open>a.com.\<close>.\<close>

theorem disabled_records_excluded_witness:
  "is_enable \<lparr>name = js ''b.com.'', rdata = js ''2.2.2.2'', type = js ''A'', is_enable = js ''no''\<rparr>
     \<noteq> js ''yes''
   \<and> process_dns_records
        [\<lparr>name = js ''a.com.'', rdata = js ''1.1.1.1'', type = js ''A'', is_enable = js ''yes''\<rparr>,
         \<lparr>name = js ''b.com.'', rdata = js ''2.2.2.2'', type = js ''A'', is_enable = js ''no''\<rparr>]
     = process_dns_records
        [\<lparr>name = js ''a.com.'', rdata = js ''1.1.1.1'', type = js ''A'', is_enable = js ''yes''\<rparr>]
   \<and> \<lparr>name = js ''b.com.'', rdata = js ''2.2.2.2'', type = js ''A'', is_enable = js ''no''\<rparr>
       \<notin> set (enabled_records
        [\<lparr>name = js ''a.com.'', rdata = js ''1.1.1.1'', type = js ''A'', is_enable = js ''yes''\<rparr>,
         \<lparr>name = js ''b.com.'', rdata = js ''2.2.2.2'', type = js ''A'', is_enable = js ''no''\<rparr>])"
  using disabled_records_excluded
    [of "\<lparr>name = js ''b.com.'', rdata = js ''2.2.2.2'', type = js ''A'', is_enable = js ''no''\<rparr>"
        "[\<lparr>name = js ''a.com.'', rdata = js ''1.1.1.1'', type = js ''A'', is_enable = js ''yes''\<rparr>,
          \<lparr>name = js ''b.com.'', rdata = js ''2.2.2.2'', type = js ''A'', is_enable = js ''no''\<rparr>]"
        id
        "[\<lparr>name = js ''a.com.'', rdata = js ''1.1.1.1'', type = js ''A'', is_enable = js ''yes''\<rparr>]"
        "[]"]
  by (simp add: js_def)

text \<open>
  C8: an enabled record is kept by the second filter exactly when its type is one of the
  strings \<open>CNAME\<close>, \<open>A\<close>, \<open>AAAA\<close>; a record of any other type contributes nothing
  to the output, and the lower-case \<open>cname\<close>, \<open>a\<close>, \<open>aaaa\<close> are other types.
\<close>

theorem other_types_excluded:
  "(r \<in> set (specified_type_records dns_records)
      \<longleftrightarrow> r \<in> set (enabled_records dns_records)
          \<and> (type r = js ''CNAME'' \<or> type r = js ''A'' \<or> type r = js ''AAAA''))
   \<and> (type r \<noteq> js ''CNAME'' \<and> type r \<noteq> js ''A'' \<and> type r \<noteq> js ''AAAA'' \<longrightarrow>
        process_dns_records (xs @ r # ys) = process_dns_records (xs @ ys))
   \<and> specified_type_records [r\<lparr>type := js ''cname'', is_enable := js ''yes''\<rparr>] = []
   \<and> specified_type_records [r\<lparr>type := js ''a'', is_enable := js ''yes''\<rparr>] = []
   \<and> specified_type_records [r\<lparr>type := js ''aaaa'', is_enable := js ''yes''\<rparr>] = []"
  by (auto simp: enabled_records_def process_dns_records_def simple_record_data_def
      specified_type_records_def js_def)

text \<open>An enabled \<open>MX\<close> record next to an \<open>A\<close> record.\<close>

theorem other_types_excluded_witness:
  "type \<lparr>name = js ''m.com.'', rdata = js ''mail.com.'', type = js ''MX'', is_enable = js ''yes''\<rparr>
     \<noteq> js ''CNAME''
   \<and> process_dns_records
        [\<lparr>name = js ''m.com.'', rdata = js ''mail.com.'', type = js ''MX'', is_enable = js ''yes''\<rparr>,
         \<lparr>name = js ''a.com.'', rdata = js ''1.1.1.1'', type = js ''A'', is_enable = js ''yes''\<rparr>]
     = process_dns_records
        [\<lparr>name = js ''a.com.'', rdata = js ''1.1.1.1'', type = js ''A'', is_enable = js ''yes''\<rparr>]
   \<and> \<lparr>name = js ''m.com.'', rdata = js ''mail.com.'', type = js ''MX'', is_enable = js ''yes''\<rparr>
       \<in> set (enabled_records
        [\<lparr>name = js ''m.com.'', rdata = js ''mail.com.'', type = js ''MX'', is_enable = js ''yes''\<rparr>,
         \<lparr>name = js ''a.com.'', rdata = js ''1.1.1.1'', type = js ''A'', is_enable = js ''yes''\<rparr>])
   \<and> \<lparr>name = js ''m.com.'', rdata = js ''mail.com.'', type = js ''MX'', is_enable = js ''yes''\<rparr>
       \<notin> set (specified_type_records
        [\<lparr>name = js ''m.com.'', rdata = js ''mail.com.'', type = js ''MX'', is_enable = js ''yes''\<rparr>,
         \<lparr>name = js ''a.com.'', rdata = js ''1.1.1.1'', type = js ''A'', is_enable = js ''yes''\<rparr>])"
  using other_types_excluded
    [of "\<lparr>name = js ''m.com.'', rdata = js ''mail.com.'', type = js ''MX'', is_enable = js ''yes''\<rparr>"
        "[\<lparr>name = js ''m.com.'', rdata = js ''mail.com.'', type = js ''MX'', is_enable = js ''yes''\<rparr>,
          \<lparr>name = js ''a.com.'', rdata = js ''1.1.1.1'', type = js ''A'', is_enable = js ''yes''\<rparr>]"
        "[]"
        "[\<lparr>name = js ''a.com.'', rdata = js ''1.1.1.1'', type = js ''A'', is_enable = js ''yes''\<rparr>]"]
  by (simp add: enabled_records_def js_def)

section \<open>The normalizer leaves its input alone\<close>

subsection \<open>Reads survive allocation and unrelated writes\<close>

lemma get_resource_append:
  "get_resource h a = Some r \<Longrightarrow> get_resource (h @ ext) a = Some r"
  by (auto simp: get_resource_def nth_append split: if_splits)

lemma get_record_data_append:
  "get_record_data h a = Some r \<Longrightarrow> get_record_data (h @ ext) a = Some r"
  by (auto simp: get_record_data_def nth_append split: if_splits)

lemma get_array_append:
  "get_array h a = Some r \<Longrightarrow> get_array (h @ ext) a = Some r"
  by (auto simp: get_array_def nth_append split: if_splits)

lemma get_array_alloc [simp]: "get_array (h @ [Array elems]) (length h) = Some elems"
  by (simp add: get_array_def)

lemma get_record_data_alloc [simp]:
  "get_record_data (h @ [Record_data r]) (length h) = Some r"
  by (simp add: get_record_data_def)

lemma get_record_data_bound: "get_record_data h a = Some r \<Longrightarrow> a < length h"
  by (simp add: get_record_data_def split: if_splits)

lemma get_resource_bound: "get_resource h a = Some r \<Longrightarrow> a < length h"
  by (simp add: get_resource_def split: if_splits)

lemma get_array_bound: "get_array h a = Some r \<Longrightarrow> a < length h"
  by (simp add: get_array_def split: if_splits)

lemma record_data_not_array:
  "get_record_data h a = Some r \<Longrightarrow> get_array h b = Some elems \<Longrightarrow> a \<noteq> b"
  by (auto simp: get_record_data_def get_array_def split: if_splits obj.splits)

lemma get_record_data_update:
  "get_record_data (h[e := v]) a =
     (if a = e \<and> e < length h then (case v of Record_data r \<Rightarrow> Some r | _ \<Rightarrow> None)
      else get_record_data h a)"
  by (auto simp: get_record_data_def)

lemma get_array_update:
  "get_array (h[e := v]) a =
     (if a = e \<and> e < length h then (case v of Array r \<Rightarrow> Some r | _ \<Rightarrow> None)
      else get_array h a)"
  by (auto simp: get_array_def)

lemma those_h_append:
  assumes "\<And>a r. get h a = Some r \<Longrightarrow> get (h @ ext) a = Some r"
  shows "those_h get h as = Some vs \<Longrightarrow> those_h get (h @ ext) as = Some vs"
  using assms by (induction as arbitrary: vs) (auto split: option.splits)

lemma those_h_update:
  "e \<notin> set as \<Longrightarrow> those_h get_record_data (h[e := v]) as = those_h get_record_data h as"
  by (induction as) (auto simp: get_record_data_update split: option.splits)

lemma those_h_snoc:
  "those_h get h (as @ [a]) =
     (case those_h get h as of None \<Rightarrow> None
      | Some vs \<Rightarrow> (case get h a of None \<Rightarrow> None | Some v \<Rightarrow> Some (vs @ [v])))"
  by (induction as) (auto split: option.splits)

lemma those_h_member:
  "those_h get h as = Some vs \<Longrightarrow> a \<in> set as \<Longrightarrow> \<exists>v. get h a = Some v"
  by (induction as arbitrary: vs) (auto split: option.splits)

subsection \<open>filter\<close>

lemma filter_h_correct:
  "those_h get_resource h elems = Some rs \<Longrightarrow>
   \<exists>kept. filter_h P h elems = Some kept \<and> those_h get_resource h kept = Some (filter P rs)
     \<and> set kept \<subseteq> set elems"
  by (induction elems arbitrary: rs) (auto split: option.splits)

lemma array_filter_correct:
  assumes "read_resources h arr = Some rs"
  shows "\<exists>kept. array_filter P h arr = Some (length h, h @ [Array kept])
           \<and> read_resources (h @ [Array kept]) (length h) = Some (filter P rs)"
proof -
  from assms obtain elems where e: "get_array h arr = Some elems"
    and rs: "those_h get_resource h elems = Some rs"
    by (auto simp: read_resources_def split: option.splits)
  from filter_h_correct[OF rs, of P] obtain kept where
    k: "filter_h P h elems = Some kept" "those_h get_resource h kept = Some (filter P rs)"
    by blast
  from k(2) have "those_h get_resource (h @ [Array kept]) kept = Some (filter P rs)"
    by (rule those_h_append[rotated]) (rule get_resource_append)
  with e k(1) show ?thesis
    by (auto simp: array_filter_def alloc_def read_resources_def)
qed

subsection \<open>map\<close>

lemma map_h_correct:
  "those_h get_resource h elems = Some rs \<Longrightarrow>
   \<exists>bs h'. map_h h elems = Some (bs, h')
     \<and> h' = h @ map (\<lambda>r. Record_data (simple_record r)) rs
     \<and> those_h get_record_data h' bs = Some (map simple_record rs)
     \<and> distinct bs \<and> (\<forall>b \<in> set bs. length h \<le> b)"
proof (induction elems arbitrary: h rs)
  case Nil then show ?case by simp
next
  case (Cons a as)
  from Cons.prems obtain r rs' where r: "get_resource h a = Some r"
    and rs': "those_h get_resource h as = Some rs'" and eq: "rs = r # rs'"
    by (auto split: option.splits)
  let ?h1 = "h @ [Record_data (simple_record r)]"
  let ?h' = "?h1 @ map (\<lambda>r. Record_data (simple_record r)) rs'"
  from rs' have "those_h get_resource ?h1 as = Some rs'"
    by (rule those_h_append[rotated]) (rule get_resource_append)
  from Cons.IH[OF this] obtain bs where bs: "map_h ?h1 as = Some (bs, ?h')"
    "those_h get_record_data ?h' bs = Some (map simple_record rs')"
    "distinct bs" "\<forall>b \<in> set bs. length ?h1 \<le> b"
    by blast
  have "get_record_data ?h' (length h) = Some (simple_record r)"
    by (rule get_record_data_append) simp
  with bs r eq show ?case by (auto simp: alloc_def)
qed

subsection \<open>find and the merge loop\<close>

lemma find_h_correct:
  "those_h get_record_data h elems = Some acc \<Longrightarrow> distinct elems \<Longrightarrow>
   (case find (\<lambda>r. name r = n) acc of
      None \<Rightarrow> find_h h n elems = Some None
    | Some existing \<Rightarrow>
        (\<exists>e. find_h h n elems = Some (Some e) \<and> e \<in> set elems
           \<and> get_record_data h e = Some existing
           \<and> (\<forall>y. those_h get_record_data (h[e := Record_data y]) elems
                  = Some (replace_first (\<lambda>r. name r = n) y acc))))"
proof (induction elems arbitrary: acc)
  case Nil then show ?case by simp
next
  case (Cons a as)
  from Cons.prems obtain r rs where r: "get_record_data h a = Some r"
    and rs: "those_h get_record_data h as = Some rs" and eq: "acc = r # rs"
    by (auto split: option.splits)
  from Cons.prems have d: "distinct as" "a \<notin> set as" by auto
  show ?case
  proof (cases "name r = n")
    case True
    with r rs eq d get_record_data_bound[OF r] show ?thesis
      by (auto simp: those_h_update get_record_data_update)
  next
    case False
    note IH = Cons.IH[OF rs d(1)]
    show ?thesis
    proof (cases "find (\<lambda>r. name r = n) rs")
      case None
      with IH False r eq show ?thesis by simp
    next
      case (Some existing)
      with IH obtain e where e: "find_h h n as = Some (Some e)" "e \<in> set as"
        "get_record_data h e = Some existing"
        "\<And>y. those_h get_record_data (h[e := Record_data y]) as
                  = Some (replace_first (\<lambda>r. name r = n) y rs)"
        by auto
      from e(2) d(2) have "a \<noteq> e" by auto
      with e r False eq Some show ?thesis
        by (auto simp: get_record_data_update)
    qed
  qed
qed


lemma array_map_correct:
  assumes "read_resources h arr = Some rs"
  shows "\<exists>bs h'. array_map h arr = Some (length h', h' @ [Array bs])
     \<and> h' = h @ map (\<lambda>r. Record_data (simple_record r)) rs
     \<and> those_h get_record_data h' bs = Some (map simple_record rs)
     \<and> distinct bs \<and> (\<forall>b \<in> set bs. length h \<le> b)"
proof -
  from assms obtain elems where e: "get_array h arr = Some elems"
    and rs: "those_h get_resource h elems = Some rs"
    by (auto simp: read_resources_def split: option.splits)
  from map_h_correct[OF rs] e show ?thesis
    by (auto simp: array_map_def alloc_def)
qed

lemma merge_h_correct:
  assumes "those_h get_record_data h as = Some xs"
    and "get_array h rd = Some elems"
    and "those_h get_record_data h elems = Some acc"
    and "distinct as" and "distinct elems" and "set as \<inter> set elems = {}"
    and "n0 \<le> rd" and "\<forall>a \<in> set as. n0 \<le> a" and "\<forall>e \<in> set elems. n0 \<le> e"
  shows "\<exists>h'. merge_h h rd as = Some h'
     \<and> read_records h' rd = Some (foldl merge_record acc xs)
     \<and> length h' = length h \<and> take n0 h' = take n0 h"
  using assms
proof (induction as arbitrary: h xs elems acc)
  case Nil
  then show ?case by (simp add: read_records_def)
next
  case (Cons a as)
  from Cons.prems(1) obtain x xs' where x: "get_record_data h a = Some x"
    and xs': "those_h get_record_data h as = Some xs'" and eq: "xs = x # xs'"
    by (auto split: option.splits)
  have rd_not_elem: "rd \<notin> set elems"
    using those_h_member[OF Cons.prems(3)] record_data_not_array[OF _ Cons.prems(2)] by blast
  have rd_not_as: "rd \<notin> set (a # as)"
    using those_h_member[OF Cons.prems(1)] record_data_not_array[OF _ Cons.prems(2)] by blast
  have rd_bound: "rd < length h" using Cons.prems(2) by (rule get_array_bound)
  note found = find_h_correct[OF Cons.prems(3) Cons.prems(5), of "name x"]
  show ?case
  proof (cases "find (\<lambda>r. name r = name x) acc")
    case None
    let ?h1 = "h[rd := Array (elems @ [a])]"
    from None found have f: "find_h h (name x) elems = Some None" by simp
    have 1: "those_h get_record_data ?h1 as = Some xs'"
      using rd_not_as xs' by (simp add: those_h_update)
    have 2: "get_array ?h1 rd = Some (elems @ [a])"
      using rd_bound by (simp add: get_array_update)
    have 3: "those_h get_record_data ?h1 (elems @ [a]) = Some (acc @ [x])"
      using rd_not_as rd_not_elem Cons.prems(3) x
      by (simp add: those_h_snoc those_h_update get_record_data_update)
    have 4: "distinct as" "distinct (elems @ [a])" "set as \<inter> set (elems @ [a]) = {}"
      using Cons.prems(4,5,6) by auto
    have 5: "\<forall>a \<in> set as. n0 \<le> a" "\<forall>e \<in> set (elems @ [a]). n0 \<le> e"
      using Cons.prems(8,9) by auto
    from Cons.IH[OF 1 2 3 4 Cons.prems(7) 5] obtain h' where
      h': "merge_h ?h1 rd as = Some h'"
        "read_records h' rd = Some (foldl merge_record (acc @ [x]) xs')"
        "length h' = length ?h1" "take n0 h' = take n0 ?h1"
      by blast
    have step: "merge_record acc x = acc @ [x]"
      using None by (simp add: merge_record_def)
    from h' x f Cons.prems(2,7) eq step show ?thesis
      by simp
  next
    case (Some existing)
    let ?y = "existing\<lparr>rdata := rdata existing @ js '','' @ rdata x\<rparr>"
    from Some found obtain e where e: "find_h h (name x) elems = Some (Some e)"
      "e \<in> set elems" "get_record_data h e = Some existing"
      "\<And>y. those_h get_record_data (h[e := Record_data y]) elems
              = Some (replace_first (\<lambda>r. name r = name x) y acc)"
      by auto
    let ?h1 = "h[e := Record_data ?y]"
    from e(2) rd_not_elem have ne: "rd \<noteq> e" by auto
    from e(2) Cons.prems(6) have e_not_as: "e \<notin> set as" by auto
    have 1: "those_h get_record_data ?h1 as = Some xs'"
      using e_not_as xs' by (simp add: those_h_update)
    have 2: "get_array ?h1 rd = Some elems"
      using ne Cons.prems(2) by (simp add: get_array_update)
    have 4: "distinct as" "set as \<inter> set elems = {}"
      using Cons.prems(4,6) by auto
    have 5: "\<forall>a \<in> set as. n0 \<le> a" using Cons.prems(8) by auto
    from Cons.IH[OF 1 2 e(4) 4(1) Cons.prems(5) 4(2) Cons.prems(7) 5 Cons.prems(9)]
    obtain h' where
      h': "merge_h ?h1 rd as = Some h'"
        "read_records h' rd
           = Some (foldl merge_record (replace_first (\<lambda>r. name r = name x) ?y acc) xs')"
        "length h' = length ?h1" "take n0 h' = take n0 ?h1"
      by blast
    have step: "merge_record acc x = replace_first (\<lambda>r. name r = name x) ?y acc"
      using Some by (simp add: merge_record_def)
    from e(2) Cons.prems(9) have "n0 \<le> e" by auto
    with h' x e(1,3) Cons.prems(2) eq step show ?thesis
      by simp
  qed
qed

lemma read_resources_frame:
  assumes "read_resources h arr = Some rs" and "take (length h) h' = h"
  shows "read_resources h' arr = Some rs"
proof -
  from assms(2) have h': "h' = h @ drop (length h) h'"
    by (metis append_take_drop_id)
  from assms(1) obtain elems where e: "get_array h arr = Some elems"
    and rs: "those_h get_resource h elems = Some rs"
    by (auto simp: read_resources_def split: option.splits)
  have "get_array (h @ drop (length h) h') arr = Some elems"
    using e by (rule get_array_append)
  moreover have "those_h get_resource (h @ drop (length h) h') elems = Some rs"
    using rs by (rule those_h_append[rotated]) (rule get_resource_append)
  ultimately show ?thesis using h' by (simp add: read_resources_def)
qed

text \<open>
  C10: \<open>process_dns_records\<close> does not change its input. Run on any heap in which
  \<open>dns_records\<close> is an array of resources, it returns, every object that existed
  before the call is unchanged afterwards (so the input array and the fields of every
  input record are), the array it returns is a new one, and that array holds the records
  computed by the function on values.
\<close>

theorem process_dns_records_h_frame:
  assumes "read_resources h dns_records = Some rs"
  shows "\<exists>records_data h'.
      process_dns_records_h h dns_records = Some (records_data, h')
      \<and> take (length h) h' = h
      \<and> read_resources h' dns_records = Some rs
      \<and> length h \<le> records_data
      \<and> read_records h' records_data = Some (process_dns_records rs)"
proof -
  let ?P1 = "\<lambda>record. is_enable record = js ''yes''"
  let ?P2 = "\<lambda>record. type record \<in> set [js ''CNAME'', js ''A'', js ''AAAA'']"
  from array_filter_correct[OF assms, of ?P1] obtain kept1 where
    s1: "array_filter ?P1 h dns_records = Some (length h, h @ [Array kept1])"
    and r1: "read_resources (h @ [Array kept1]) (length h) = Some (filter ?P1 rs)"
    by blast
  let ?h1 = "h @ [Array kept1]"
  from array_filter_correct[OF r1, of ?P2] obtain kept2 where
    s2: "array_filter ?P2 ?h1 (length h) = Some (length ?h1, ?h1 @ [Array kept2])"
    and r2: "read_resources (?h1 @ [Array kept2]) (length ?h1)
               = Some (filter ?P2 (filter ?P1 rs))"
    by blast
  let ?h2 = "?h1 @ [Array kept2]"
  let ?rs2 = "filter ?P2 (filter ?P1 rs)"
  from array_map_correct[OF r2] obtain bs h3 where
    s3: "array_map ?h2 (length ?h1) = Some (length h3, h3 @ [Array bs])"
    and h3: "h3 = ?h2 @ map (\<lambda>r. Record_data (simple_record r)) ?rs2"
    and v3: "those_h get_record_data h3 bs = Some (map simple_record ?rs2)"
    and d3: "distinct bs" and b3: "\<forall>b \<in> set bs. length ?h2 \<le> b"
    by blast
  let ?h4 = "(h3 @ [Array bs]) @ [Array []]"
  let ?rd = "length (h3 @ [Array bs])"
  have g4: "get_array ?h4 (length h3) = Some bs"
    by (rule get_array_append) simp
  have v4: "those_h get_record_data ?h4 bs = Some (map simple_record ?rs2)"
    using v3 unfolding append_assoc
    by (rule those_h_append[rotated]) (rule get_record_data_append)
  have a4: "get_array ?h4 ?rd = Some []" by (rule get_array_alloc)
  have "\<exists>h'. merge_h ?h4 ?rd bs = Some h'
     \<and> read_records h' ?rd = Some (foldl merge_record [] (map simple_record ?rs2))
     \<and> length h' = length ?h4 \<and> take (length h) h' = take (length h) ?h4"
  proof (rule merge_h_correct[OF v4 a4 _ d3])
    show "those_h get_record_data ?h4 [] = Some []" by simp
    show "length h \<le> ?rd" by (simp add: h3)
    show "\<forall>a \<in> set bs. length h \<le> a" using b3 by auto
  qed simp_all
  then obtain h5 where s5: "merge_h ?h4 ?rd bs = Some h5"
    and r5: "read_records h5 ?rd = Some (foldl merge_record [] (map simple_record ?rs2))"
    and f5: "take (length h) h5 = take (length h) ?h4"
    by blast
  have frame: "take (length h) h5 = h" using f5 by (simp add: h3)
  have run: "process_dns_records_h h dns_records = Some (?rd, h5)"
    using s1 s2 s3 g4 s5 by (simp add: process_dns_records_h_def alloc_def)
  have res: "foldl merge_record [] (map simple_record ?rs2) = process_dns_records rs"
    by (simp add: process_dns_records_def simple_record_data_def specified_type_records_def
        enabled_records_def)
  from run frame r5 res read_resources_frame[OF assms frame] show ?thesis
    by (simp add: h3)
qed

lemma find_h_member:
  "find_h h n elems = Some (Some e) \<Longrightarrow> e \<in> set elems \<and> (\<exists>r. get_record_data h e = Some r)"
  by (induction elems) (auto split: option.splits if_splits)

text \<open>
  The merge loop writes to the array \<open>records_data\<close> and to objects that array
  refers to, and to nothing else.
\<close>

lemma merge_h_writes_only_output:
  "merge_h h rd as = Some h' \<Longrightarrow> get_array h rd = Some elems \<Longrightarrow>
   \<exists>out. get_array h' rd = Some out \<and> set elems \<subseteq> set out
     \<and> (\<forall>a. a \<noteq> rd \<and> a \<notin> set out \<longrightarrow> h' ! a = h ! a)"
proof (induction as arbitrary: h elems)
  case Nil then show ?case by simp
next
  case (Cons x as)
  from Cons.prems obtain rcd found where
    rec: "get_record_data h x = Some rcd"
    and f: "find_h h (name rcd) elems = Some found"
    by (auto split: option.splits)
  have rd_bound: "rd < length h" using Cons.prems(2) by (rule get_array_bound)
  show ?case
  proof (cases found)
    case None
    let ?h1 = "h[rd := Array (elems @ [x])]"
    from None f rec Cons.prems have m: "merge_h ?h1 rd as = Some h'" by simp
    have g: "get_array ?h1 rd = Some (elems @ [x])"
      using rd_bound by (simp add: get_array_update)
    from Cons.IH[OF m g] show ?thesis by auto
  next
    case (Some e)
    with f find_h_member[of h "name rcd" elems e] obtain existing where
      e: "e \<in> set elems" "get_record_data h e = Some existing" by auto
    let ?h1 = "h[e := Record_data (existing\<lparr>rdata := rdata existing @ js '','' @ rdata rcd\<rparr>)]"
    from Some f rec e Cons.prems have m: "merge_h ?h1 rd as = Some h'" by simp
    have "e \<noteq> rd" using record_data_not_array[OF e(2) Cons.prems(2)] .
    then have g: "get_array ?h1 rd = Some elems"
      using Cons.prems(2) by (simp add: get_array_update)
    from Cons.IH[OF m g] obtain out where out: "get_array h' rd = Some out"
      "set elems \<subseteq> set out" "\<forall>a. a \<noteq> rd \<and> a \<notin> set out \<longrightarrow> h' ! a = ?h1 ! a"
      by blast
    have "?h1 ! a = h ! a" if "a \<notin> set out" for a
      using that out(2) e(1) by (metis nth_list_update_neq subsetD)
    with out show ?thesis by auto
  qed
qed

text \<open>
  A heap with two enabled records named \<open>a.com.\<close>, a disabled \<open>b.com.\<close> and the
  array of the three.
\<close>

theorem process_dns_records_h_frame_witness:
  "read_resources
     [Resource \<lparr>name = js ''a.com.'', rdata = js ''1.1.1.1'', type = js ''A'', is_enable = js ''yes''\<rparr>,
      Resource \<lparr>name = js ''a.com.'', rdata = js ''::1'', type = js ''AAAA'', is_enable = js ''yes''\<rparr>,
      Resource \<lparr>name = js ''b.com.'', rdata = js ''2.2.2.2'', type = js ''A'', is_enable = js ''no''\<rparr>,
      Array [0, 1, 2]] 3
     = Some
       [\<lparr>name = js ''a.com.'', rdata = js ''1.1.1.1'', type = js ''A'', is_enable = js ''yes''\<rparr>,
        \<lparr>name = js ''a.com.'', rdata = js ''::1'', type = js ''AAAA'', is_enable = js ''yes''\<rparr>,
        \<lparr>name = js ''b.com.'', rdata = js ''2.2.2.2'', type = js ''A'', is_enable = js ''no''\<rparr>]
   \<and> (\<exists>records_data h'.
        process_dns_records_h
          [Resource \<lparr>name = js ''a.com.'', rdata = js ''1.1.1.1'', type = js ''A'', is_enable = js ''yes''\<rparr>,
           Resource \<lparr>name = js ''a.com.'', rdata = js ''::1'', type = js ''AAAA'', is_enable = js ''yes''\<rparr>,
           Resource \<lparr>name = js ''b.com.'', rdata = js ''2.2.2.2'', type = js ''A'', is_enable = js ''no''\<rparr>,
           Array [0, 1, 2]] 3
          = Some (records_data, h')
        \<and> take 4 h'
          = [Resource \<lparr>name = js ''a.com.'', rdata = js ''1.1.1.1'', type = js ''A'', is_enable = js ''yes''\<rparr>,
             Resource \<lparr>name = js ''a.com.'', rdata = js ''::1'', type = js ''AAAA'', is_enable = js ''yes''\<rparr>,
             Resource \<lparr>name = js ''b.com.'', rdata = js ''2.2.2.2'', type = js ''A'', is_enable = js ''no''\<rparr>,
             Array [0, 1, 2]]
        \<and> read_records h' records_data = Some [\<lparr>name = js ''a.com'', rdata = js ''1.1.1.1,::1''\<rparr>])"
proof -
  let ?rs = "[\<lparr>name = js ''a.com.'', rdata = js ''1.1.1.1'', type = js ''A'', is_enable = js ''yes''\<rparr>,
        \<lparr>name = js ''a.com.'', rdata = js ''::1'', type = js ''AAAA'', is_enable = js ''yes''\<rparr>,
        \<lparr>name = js ''b.com.'', rdata = js ''2.2.2.2'', type = js ''A'', is_enable = js ''no''\<rparr>]"
  let ?h = "map Resource ?rs @ [Array [0, 1, 2]]"
  have hyp: "read_resources ?h 3 = Some ?rs"
    by (simp add: read_resources_def get_array_def get_resource_def)
  have out: "process_dns_records ?rs = [\<lparr>name = js ''a.com'', rdata = js ''1.1.1.1,::1''\<rparr>]"
    by (simp add: process_dns_records_def simple_record_data_def specified_type_records_def
        enabled_records_def simple_record_eq merge_record_def js_def)
  from process_dns_records_h_frame[OF hyp] obtain records_data h' where
    run: "process_dns_records_h ?h 3 = Some (records_data, h')"
    and frame: "take (length ?h) h' = ?h"
    and res: "read_records h' records_data = Some (process_dns_records ?rs)"
    by blast
  have len: "length ?h = 4" by simp
  from frame have frame': "take 4 h' = ?h" unfolding len .
  from run frame' res show ?thesis
    unfolding out using hyp by (intro conjI exI) simp_all
qed

section \<open>Properties of the reconciler\<close>

lemma foldl_update_keys:
  "fst ` set (foldl (\<lambda>obj (k, v). AList.update k v obj) acc es)
     = fst ` set acc \<union> fst ` set es"
proof (induction es arbitrary: acc)
  case Nil show ?case by simp
next
  case (Cons e es)
  obtain k v where e: "e = (k, v)" by (cases e)
  have "fst ` set (AList.update k v acc) = insert k (fst ` set acc)"
    using AList.dom_update[of k v acc] by simp
  with Cons e show ?case by auto
qed

lemma foldl_update_distinct:
  "distinct (map fst acc) \<Longrightarrow>
   distinct (map fst (foldl (\<lambda>obj (k, v). AList.update k v obj) acc es))"
proof (induction es arbitrary: acc)
  case Nil then show ?case by simp
next
  case (Cons e es)
  obtain k v where e: "e = (k, v)" by (cases e)
  from Cons.prems have "distinct (map fst (AList.update k v acc))"
    by (rule AList.distinct_update)
  with Cons.IH e show ?case by simp
qed

lemma update_entries_subset:
  "set (AList.update k v acc) \<subseteq> insert (k, v) (set acc)"
  by (induction acc) auto

lemma foldl_update_entries:
  "set (foldl (\<lambda>obj (k, v). AList.update k v obj) acc es) \<subseteq> set acc \<union> set es"
proof (induction es arbitrary: acc)
  case Nil show ?case by simp
next
  case (Cons e es)
  obtain k v where e: "e = (k, v)" by (cases e)
  from Cons.IH[of "AList.update k v acc"] update_entries_subset[of k v acc] e
  show ?case by auto
qed

text \<open>
  A later row of the same name wins and keeps the place of the first; array indices
  come first among the keys.
\<close>

lemma from_entries_example:
  "from_entries [(js ''a'', js ''r1''), (js ''b'', js ''r2''), (js ''a'', js ''r3'')]
     = [(js ''a'', js ''r3''), (js ''b'', js ''r2'')]"
  by (simp add: from_entries_def js_def)

lemma own_keys_example:
  "own_keys [(js ''b.com'', x), (js ''10'', y), (js ''2'', z), (js ''007'', u)]
     = [js ''2'', js ''10'', js ''b.com'', js ''007'']"
  by (simp add: own_keys_def is_array_index_def is_digit_def decimal_value_def js_def)

lemma from_entries_keys: "fst ` set (from_entries entries) = fst ` set entries"
  by (simp add: from_entries_def foldl_update_keys)

lemma from_entries_distinct: "distinct (map fst (from_entries entries))"
  by (simp add: from_entries_def foldl_update_distinct)

lemma from_entries_subset: "set (from_entries entries) \<subseteq> set entries"
  using foldl_update_entries[of "[]" entries] by (simp add: from_entries_def)

lemma own_keys_set: "set (own_keys obj) = fst ` set obj"
  by (auto simp: own_keys_def)

lemma own_keys_distinct: "distinct (map fst obj) \<Longrightarrow> distinct (own_keys obj)"
  by (auto simp: own_keys_def)

lemma get_property_own:
  assumes "key \<in> fst ` set obj"
  shows "\<exists>v. get_property obj key = Own v \<and> (key, v) \<in> set obj"
proof -
  from assms obtain v where "map_of obj key = Some v"
    by (metis map_of_eq_None_iff not_None_eq)
  then show ?thesis by (auto simp: get_property_def dest: map_of_SomeD)
qed

lemma records_to_delete_set:
  "set (records_to_delete (from_entries entries) data) = fst ` set entries - name ` set data"
  by (auto simp: records_to_delete_def own_keys_set from_entries_keys)

lemma records_to_delete_distinct:
  "distinct (records_to_delete (from_entries entries) data)"
  by (simp add: records_to_delete_def own_keys_distinct from_entries_distinct)

text \<open>
  The two filters of lines 129 and 145 test the same condition, so they split the
  normalized records in two; for a name that \<open>Object.prototype\<close> does not have, the
  condition is that a row of that name exists.
\<close>

lemma records_insert_update_partition:
  "set (records_to_insert m data) \<inter> set (records_to_update m data) = {}
   \<and> set (records_to_insert m data) \<union> set (records_to_update m data) = set data
   \<and> length (records_to_insert m data) + length (records_to_update m data) = length data"
  using sum_length_filter_compl[of "\<lambda>r. has_property m (name r)" data]
  by (auto simp: records_to_insert_def records_to_update_def)

lemma records_insert_update_own:
  "name r \<notin> set object_prototype_keys \<Longrightarrow>
   (r \<in> set (records_to_insert m data) \<longleftrightarrow> r \<in> set data \<and> name r \<notin> fst ` set m)
   \<and> (r \<in> set (records_to_update m data) \<longleftrightarrow> r \<in> set data \<and> name r \<in> fst ` set m)"
  by (auto simp: records_to_insert_def records_to_update_def has_property_def)

text \<open>
  C6: when the calls before it succeed, the delete call is issued with the row ids of
  the names in the delete set; the delete set is the set of the names of the existing
  rows that are the name of no normalized record, each name once; and
  \<open>statistics.deleted\<close> is the number of these names, whatever number the service
  reports.
\<close>

theorem delete_set_and_count:
  assumes "sheet_rows w = Inr res"
    and "map_result (row_entry (with_default (env ''FIELD_DNS_NAME'') default_FIELD_DNS_NAME)) res
           = Inr entries"
    and "add_result w = Inr n_added"
    and "update_result w = Inr n_updated"
    and "to_delete = records_to_delete (from_entries entries) dns_records_data"
  shows "(\<exists>call_records call_add call_update.
      fst (process_wedocs env w dns_records_data)
        = [call_records, call_add, call_update,
           Record_del (env ''DOC_ID'') (env ''SHEET_ID'')
             (map (get_property (from_entries entries)) to_delete)
             \<lparr>corpId = env ''CORP_ID'', secret = env ''SECRET''\<rparr>])
      \<and> set to_delete = fst ` set entries - name ` set dns_records_data
      \<and> distinct to_delete
      \<and> (\<forall>n \<in> set to_delete. \<exists>record_id.
            get_property (from_entries entries) n = Own record_id \<and> (n, record_id) \<in> set entries)
      \<and> (\<forall>n_confirmed. del_result w = Inr n_confirmed \<longrightarrow>
            snd (process_wedocs env w dns_records_data)
              = Inr \<lparr>added = n_added, updated = n_updated, deleted = length to_delete\<rparr>
            \<and> length to_delete = card (fst ` set entries - name ` set dns_records_data))"
proof (intro conjI)
  show "\<exists>call_records call_add call_update.
      fst (process_wedocs env w dns_records_data)
        = [call_records, call_add, call_update,
           Record_del (env ''DOC_ID'') (env ''SHEET_ID'')
             (map (get_property (from_entries entries)) to_delete)
             \<lparr>corpId = env ''CORP_ID'', secret = env ''SECRET''\<rparr>]"
    using assms by (cases "del_result w") (simp_all add: process_wedocs_def Let_def)
next
  show set_eq: "set to_delete = fst ` set entries - name ` set dns_records_data"
    using assms(5) by (simp add: records_to_delete_set)
  show dist: "distinct to_delete"
    using assms(5) by (simp add: records_to_delete_distinct)
  show "\<forall>n \<in> set to_delete. \<exists>record_id.
      get_property (from_entries entries) n = Own record_id \<and> (n, record_id) \<in> set entries"
  proof
    fix n assume "n \<in> set to_delete"
    then have "n \<in> fst ` set (from_entries entries)"
      by (simp add: set_eq from_entries_keys)
    from get_property_own[OF this] from_entries_subset[of entries] show
      "\<exists>record_id. get_property (from_entries entries) n = Own record_id
         \<and> (n, record_id) \<in> set entries" by blast
  qed
  have card: "length to_delete = card (fst ` set entries - name ` set dns_records_data)"
    using distinct_card[OF dist] by (simp add: set_eq)
  show "\<forall>n_confirmed. del_result w = Inr n_confirmed \<longrightarrow>
            snd (process_wedocs env w dns_records_data)
              = Inr \<lparr>added = n_added, updated = n_updated, deleted = length to_delete\<rparr>
            \<and> length to_delete = card (fst ` set entries - name ` set dns_records_data)"
    using assms card by (simp add: process_wedocs_def Let_def)
qed

text \<open>
  Rows \<open>a.com\<close> and \<open>c.com\<close>, normalized records \<open>a.com\<close> and \<open>d.com\<close>, and a
  service that reports no row deleted: the delete set is \<open>c.com\<close> and
  \<open>statistics.deleted\<close> is 1.
\<close>

theorem delete_set_and_count_witness:
  "set (records_to_delete
          (from_entries [(js ''a.com'', js ''r1''), (js ''c.com'', js ''r2'')])
          [\<lparr>name = js ''a.com'', rdata = js ''1.1.1.1''\<rparr>,
           \<lparr>name = js ''d.com'', rdata = js ''4.4.4.4''\<rparr>])
     = {js ''c.com''}
   \<and> snd (process_wedocs (\<lambda>k. Some (js ''x''))
       \<lparr>zdns_resources = Inr [],
        sheet_rows = Inr
          [\<lparr>record_id = js ''r1'', row_values =
              [(js ''x'', [\<lparr>cell_type = js ''text'', cell_text = js ''a.com''\<rparr>])]\<rparr>,
           \<lparr>record_id = js ''r2'', row_values =
              [(js ''x'', [\<lparr>cell_type = js ''text'', cell_text = js ''c.com''\<rparr>])]\<rparr>],
        add_result = Inr 1, update_result = Inr 1, del_result = Inr 0\<rparr>
       [\<lparr>name = js ''a.com'', rdata = js ''1.1.1.1''\<rparr>,
        \<lparr>name = js ''d.com'', rdata = js ''4.4.4.4''\<rparr>])
     = Inr \<lparr>added = 1, updated = 1, deleted = 1\<rparr>"
proof -
  let ?env = "\<lambda>k::string. Some (js ''x'')"
  let ?res = "[\<lparr>record_id = js ''r1'', row_values =
              [(js ''x'', [\<lparr>cell_type = js ''text'', cell_text = js ''a.com''\<rparr>])]\<rparr>,
           \<lparr>record_id = js ''r2'', row_values =
              [(js ''x'', [\<lparr>cell_type = js ''text'', cell_text = js ''c.com''\<rparr>])]\<rparr>]"
  let ?w = "\<lparr>zdns_resources = Inr [], sheet_rows = Inr ?res,
        add_result = Inr 1, update_result = Inr 1, del_result = Inr 0\<rparr>"
  let ?entries = "[(js ''a.com'', js ''r1''), (js ''c.com'', js ''r2'')]"
  let ?data = "[\<lparr>name = js ''a.com'', rdata = js ''1.1.1.1''\<rparr>,
        \<lparr>name = js ''d.com'', rdata = js ''4.4.4.4''\<rparr>]"
  have h1: "sheet_rows ?w = Inr ?res" by simp
  have h2: "map_result (row_entry (with_default (?env ''FIELD_DNS_NAME'') default_FIELD_DNS_NAME))
      ?res = Inr ?entries"
    by (simp add: with_default_def row_entry_def)
  have h3: "add_result ?w = Inr 1" by simp
  have h4: "update_result ?w = Inr 1" by simp
  have h5: "del_result ?w = Inr 0" by simp
  have del: "records_to_delete (from_entries ?entries) ?data = [js ''c.com'']"
    by (simp add: records_to_delete_def from_entries_def own_keys_def is_array_index_def
        is_digit_def js_def)
  note facts = delete_set_and_count[OF h1 h2 h3 h4 refl, of ?data]
  from facts h5 have
    "snd (process_wedocs ?env ?w ?data)
       = Inr \<lparr>added = 1, updated = 1,
              deleted = length (records_to_delete (from_entries ?entries) ?data)\<rparr>"
    by blast
  then show ?thesis unfolding del by simp
qed

subsection \<open>Runs on concrete sheets\<close>

lemmas eval_defs = process_wedocs_def Let_def with_default_def row_entry_def from_entries_def
  records_to_insert_def records_to_update_def records_to_delete_def has_property_def
  get_property_def own_keys_def is_array_index_def is_digit_def object_prototype_keys_def
  text_values_def default_FIELD_DNS_NAME_def default_FIELD_DNS_RDATA_def js_def

text \<open>The value of \<open>REMOVE_IRRELEVANT_RECORDS\<close> has no effect on the run.\<close>

lemma delete_toggle_ignored:
  "process_wedocs (env(''REMOVE_IRRELEVANT_RECORDS'' := v)) w dns_records_data
     = process_wedocs env w dns_records_data"
  by (simp add: process_wedocs_def Let_def)

text \<open>
  C3 says that a run with \<open>REMOVE_IRRELEVANT_RECORDS\<close> other than \<open>true\<close> issues no
  delete call and leaves \<open>statistics.deleted\<close> at 0. Line 116 computes
  \<open>REMOVE_IRRELEVANT_RECORDS === 'true' || true\<close>, which is true for every value:
  with the variable set to \<open>false\<close>, rows \<open>a.com\<close> and \<open>c.com\<close> in the sheet and
  normalized records \<open>a.com\<close> and \<open>d.com\<close>, the last call of the run deletes the row
  of \<open>c.com\<close> and the statistics report one deletion.
\<close>

theorem delete_toggle_false_still_deletes:
  "((\<lambda>k. None)(''DOC_ID'' \<mapsto> js ''doc'', ''SHEET_ID'' \<mapsto> js ''sheet'', ''CORP_ID'' \<mapsto> js ''corp'',
       ''SECRET'' \<mapsto> js ''secret'', ''REMOVE_IRRELEVANT_RECORDS'' \<mapsto> js ''false''))
     ''REMOVE_IRRELEVANT_RECORDS'' \<noteq> Some (js ''true'')
   \<and> snd (process_wedocs
       ((\<lambda>k. None)(''DOC_ID'' \<mapsto> js ''doc'', ''SHEET_ID'' \<mapsto> js ''sheet'', ''CORP_ID'' \<mapsto> js ''corp'',
          ''SECRET'' \<mapsto> js ''secret'', ''REMOVE_IRRELEVANT_RECORDS'' \<mapsto> js ''false''))
       \<lparr>zdns_resources = Inr [],
        sheet_rows = Inr
          [\<lparr>record_id = js ''r1'', row_values =
              [(default_FIELD_DNS_NAME, [\<lparr>cell_type = js ''text'', cell_text = js ''a.com''\<rparr>])]\<rparr>,
           \<lparr>record_id = js ''r2'', row_values =
              [(default_FIELD_DNS_NAME, [\<lparr>cell_type = js ''text'', cell_text = js ''c.com''\<rparr>])]\<rparr>],
        add_result = Inr 1, update_result = Inr 1, del_result = Inr 1\<rparr>
       [\<lparr>name = js ''a.com'', rdata = js ''1.1.1.1''\<rparr>,
        \<lparr>name = js ''d.com'', rdata = js ''4.4.4.4''\<rparr>])
     = Inr \<lparr>added = 1, updated = 1, deleted = 1\<rparr>
   \<and> last (fst (process_wedocs
       ((\<lambda>k. None)(''DOC_ID'' \<mapsto> js ''doc'', ''SHEET_ID'' \<mapsto> js ''sheet'', ''CORP_ID'' \<mapsto> js ''corp'',
          ''SECRET'' \<mapsto> js ''secret'', ''REMOVE_IRRELEVANT_RECORDS'' \<mapsto> js ''false''))
       \<lparr>zdns_resources = Inr [],
        sheet_rows = Inr
          [\<lparr>record_id = js ''r1'', row_values =
              [(default_FIELD_DNS_NAME, [\<lparr>cell_type = js ''text'', cell_text = js ''a.com''\<rparr>])]\<rparr>,
           \<lparr>record_id = js ''r2'', row_values =
              [(default_FIELD_DNS_NAME, [\<lparr>cell_type = js ''text'', cell_text = js ''c.com''\<rparr>])]\<rparr>],
        add_result = Inr 1, update_result = Inr 1, del_result = Inr 1\<rparr>
       [\<lparr>name = js ''a.com'', rdata = js ''1.1.1.1''\<rparr>,
        \<lparr>name = js ''d.com'', rdata = js ''4.4.4.4''\<rparr>]))
     = Record_del (Some (js ''doc'')) (Some (js ''sheet'')) [Own (js ''r2'')]
         \<lparr>corpId = Some (js ''corp''), secret = Some (js ''secret'')\<rparr>"
  by (simp add: eval_defs)

text \<open>
  C5 says that a normalized record is inserted exactly when its name is absent from the
  mapping of existing row names, and updated exactly when it is present. The test
  \<open>name in record_name_id_mappings\<close> also finds the properties every object
  inherits: with an empty sheet, the record named \<open>constructor\<close> is absent from the
  mapping, yet it is not inserted; it is sent for update, with the inherited member as
  its row id.
\<close>

theorem inherited_name_updated_not_inserted:
  "map_result (row_entry default_FIELD_DNS_NAME) ([] :: jsstring sheet_record list) = Inr []
   \<and> js ''constructor'' \<notin> fst ` set (from_entries ([] :: (jsstring \<times> jsstring) list))
   \<and> records_to_insert (from_entries []) [\<lparr>name = js ''constructor'', rdata = js ''1.1.1.1''\<rparr>] = []
   \<and> records_to_update (from_entries []) [\<lparr>name = js ''constructor'', rdata = js ''1.1.1.1''\<rparr>]
       = [\<lparr>name = js ''constructor'', rdata = js ''1.1.1.1''\<rparr>]
   \<and> fst (process_wedocs
       ((\<lambda>k. None)(''DOC_ID'' \<mapsto> js ''doc'', ''SHEET_ID'' \<mapsto> js ''sheet'', ''CORP_ID'' \<mapsto> js ''corp'',
          ''SECRET'' \<mapsto> js ''secret'', ''FIELD_DNS_NAME'' \<mapsto> js ''name'',
          ''FIELD_DNS_RDATA'' \<mapsto> js ''rdata''))
       \<lparr>zdns_resources = Inr [], sheet_rows = Inr [],
        add_result = Inr 0, update_result = Inr 1, del_result = Inr 0\<rparr>
       [\<lparr>name = js ''constructor'', rdata = js ''1.1.1.1''\<rparr>])
     = [Record_records (Some (js ''doc'')) (Some (js ''sheet''))
          \<lparr>corpId = Some (js ''corp''), secret = Some (js ''secret'')\<rparr>,
        Record_add (Some (js ''doc'')) (Some (js ''sheet'')) []
          \<lparr>corpId = Some (js ''corp''), secret = Some (js ''secret'')\<rparr>,
        Record_update (Some (js ''doc'')) (Some (js ''sheet''))
          [\<lparr>record_id = Proto_member (js ''constructor''),
            row_values = [(js ''name'', [\<lparr>cell_type = js ''text'', cell_text = js ''constructor''\<rparr>]),
                          (js ''rdata'', [\<lparr>cell_type = js ''text'', cell_text = js ''1.1.1.1''\<rparr>])]\<rparr>]
          \<lparr>corpId = Some (js ''corp''), secret = Some (js ''secret'')\<rparr>,
        Record_del (Some (js ''doc'')) (Some (js ''sheet'')) []
          \<lparr>corpId = Some (js ''corp''), secret = Some (js ''secret'')\<rparr>]"
  by (simp add: eval_defs)

section \<open>The configuration check\<close>

lemma config_missing_iff:
  "config_missing env \<longleftrightarrow> (\<exists>k \<in> set mandatory_parameters. falsy (env k))"
  by (simp add: config_missing_def mandatory_parameters_def)

lemma program_configured:
  "\<not> config_missing env \<Longrightarrow> program env w = entrypoint env w"
  by (simp add: program_def)

text \<open>
  C9: there are eleven mandatory parameters, and when one of them is absent from the
  environment the run makes no call to a remote service and ends by leaving the process
  with a status that is not zero.
\<close>

theorem missing_config_exits:
  assumes "k \<in> set mandatory_parameters" and "env k = None"
  shows "length mandatory_parameters = 11
     \<and> fst (program env w) = []
     \<and> (\<exists>code. snd (program env w) = Exited code \<and> code \<noteq> 0)"
proof -
  from assms have "config_missing env"
    unfolding config_missing_iff by (auto simp: falsy_def)
  then show ?thesis by (simp add: program_def mandatory_parameters_def)
qed

text \<open>An environment that has every variable but \<open>SHEET_ID\<close>.\<close>

theorem missing_config_exits_witness:
  "''SHEET_ID'' \<in> set mandatory_parameters
   \<and> ((\<lambda>k. Some (js ''x''))(''SHEET_ID'' := None)) ''SHEET_ID'' = None
   \<and> fst (program ((\<lambda>k. Some (js ''x''))(''SHEET_ID'' := None))
        \<lparr>zdns_resources = Inr [], sheet_rows = Inr [], add_result = Inr 0,
         update_result = Inr 0, del_result = Inr 0\<rparr>) = []
   \<and> (\<exists>code. snd (program ((\<lambda>k. Some (js ''x''))(''SHEET_ID'' := None))
        \<lparr>zdns_resources = Inr [], sheet_rows = Inr [], add_result = Inr 0,
         update_result = Inr 0, del_result = Inr 0\<rparr>) = Exited code \<and> code \<noteq> 0)"
proof -
  have k: "''SHEET_ID'' \<in> set mandatory_parameters"
    by (simp add: mandatory_parameters_def)
  have e: "((\<lambda>k. Some (js ''x''))(''SHEET_ID'' := None)) ''SHEET_ID'' = None" by simp
  from missing_config_exits[where k = "''SHEET_ID''"
      and env = "(\<lambda>k. Some (js ''x''))(''SHEET_ID'' := None)"
      and w = "\<lparr>zdns_resources = Inr [], sheet_rows = Inr [], add_result = Inr 0,
         update_result = Inr 0, del_result = Inr 0\<rparr>", OF k e] k e
  show ?thesis by blast
qed

end
